theory Spec2Isabelle
  imports Complex_Main "HOL-Library.Word"
begin

section \<open>The Audio Manager of the sketches (src/utils/AudioManager.js)\<close>

text \<open>
  The class \<^verbatim>\<open>AudioManager\<close> owns a microphone stream, reads a frequency snapshot
  from an analyser node once per animation frame, reduces it to a smoothed volume and
  keeps rolling metrics. Its fields are a record, each method is a function from the
  manager (and, where the method touches platform objects, from the world of those objects)
  to the manager it leaves behind together with what the method returned or threw.

  JavaScript numbers are modelled as real numbers extended by \<open>NaN\<close>. The arithmetic is
  exact: the rounding of IEEE doubles is not part of the model, so nothing is stated here
  about the exact value a computation in doubles returns (in doubles \<open>1 - 0.8\<close> is not
  \<open>0.2\<close>). The properties below are bounds, structure and state changes; where a concrete
  number is evaluated, the input is chosen so that every intermediate value is a dyadic
  number the doubles compute exactly. \<open>NaN\<close> is kept because the code can produce it (the
  mean of an empty snapshot is \<open>0 / 0\<close>) and HOL's own \<open>0 / 0 = 0\<close> would hide that.
  The asynchronous methods are modelled as running to completion without interleaving.
\<close>

subsection \<open>Numbers\<close>

datatype jsnum = Num real | NaN

fun num_add :: "jsnum \<Rightarrow> jsnum \<Rightarrow> jsnum" where
  "num_add (Num a) (Num b) = Num (a + b)"
| "num_add _ _ = NaN"

fun num_mul :: "jsnum \<Rightarrow> jsnum \<Rightarrow> jsnum" where
  "num_mul (Num a) (Num b) = Num (a * b)"
| "num_mul _ _ = NaN"

text \<open>\<^verbatim>\<open>Math.max(a, b)\<close>: \<open>NaN\<close> as soon as one argument is.\<close>

fun num_max :: "jsnum \<Rightarrow> jsnum \<Rightarrow> jsnum" where
  "num_max (Num a) (Num b) = Num (max a b)"
| "num_max _ _ = NaN"

text \<open>Division by a count that is at least one (the only use: \<^verbatim>\<open>volumeSum / sampleCount\<close>
  right after \<^verbatim>\<open>sampleCount++\<close>).\<close>

fun num_div_count :: "jsnum \<Rightarrow> nat \<Rightarrow> jsnum" where
  "num_div_count (Num a) n = (if n = 0 then NaN else Num (a / real n))"
| "num_div_count NaN n = NaN"

fun in_unit :: "jsnum \<Rightarrow> bool" where
  "in_unit (Num v) = (0 \<le> v \<and> v \<le> 1)"
| "in_unit NaN = False"

subsection \<open>Platform objects\<close>

datatype error =
  NotSupportedError | NotAllowedError | NotFoundError | InvalidStateError | TypeError

datatype readyState = Live | Ended

record audio_context =
  sampleRate :: nat

record analyser_node =
  fftSize :: nat
  smoothingTimeConstant :: real
  minDecibels :: real
  maxDecibels :: real

text \<open>\<^verbatim>\<open>AnalyserNode.frequencyBinCount\<close> is half the transform size.\<close>

definition frequencyBinCount :: "analyser_node \<Rightarrow> nat" where
  "frequencyBinCount a = fftSize a div 2"

text \<open>
  The world holds the platform objects the manager refers to: every media stream handed
  out by \<^verbatim>\<open>getUserMedia\<close>, as the list of the ready states of its tracks (a stream is
  named by its position in \<open>streams\<close>), and the source nodes currently connected into the
  analyser (a source node is named by the stream it was created from).
\<close>

record world =
  streams :: "readyState list list"
  connected :: "nat list"

text \<open>
  What the platform answers to the calls one method invocation makes: a constructor or a
  call either succeeds or throws; \<^verbatim>\<open>getUserMedia\<close> rejects or grants a stream with a
  number of tracks; \<open>now\<close> is \<^verbatim>\<open>Date.now()\<close>; \<open>byteFrequencyData\<close> is what the
  analyser currently holds.
\<close>

record platform =
  newAudioContext :: "error + audio_context"
  createAnalyser :: "error option"
  getUserMedia :: "error + nat"
  createMediaStreamSource :: "error option"
  connect :: "error option"
  track_stop :: "nat \<Rightarrow> nat \<Rightarrow> error option"
  disconnect :: "nat \<Rightarrow> error option"
  now :: int
  byteFrequencyData :: "8 word list"

subsection \<open>The fields of the manager\<close>

record metrics =
  lastUpdate :: int
  updateInterval :: int
  peakVolume :: jsnum
  averageVolume :: jsnum
  sampleCount :: nat
  volumeSum :: jsnum

record audio_manager =
  initialized :: bool
  isActive :: bool
  audioContext :: "audio_context option"
  analyser :: "analyser_node option"
  microphone :: "nat option"
  volumeSmoothing :: real
  prevVolume :: jsnum
  stream :: "nat option"
  metrics :: metrics

text \<open>What \<^verbatim>\<open>getAudioData\<close> returns; \<open>None\<close> in \<open>data_metrics\<close> is an object without
  the property \<^verbatim>\<open>metrics\<close>, \<open>None\<close> in \<open>frequencyData\<close> is \<^verbatim>\<open>null\<close>. The metrics
  returned are the manager's own object; the record holds their value at the return.\<close>

record audio_data =
  volume :: jsnum
  frequencyData :: "8 word list option"
  data_metrics :: "metrics option"

definition constructor :: audio_manager where
  "constructor =
     \<lparr>initialized = False, isActive = False, audioContext = None, analyser = None,
      microphone = None, volumeSmoothing = 0.8, prevVolume = Num 0, stream = None,
      metrics = \<lparr>lastUpdate = 0, updateInterval = 1000, peakVolume = Num 0,
                 averageVolume = Num 0, sampleCount = 0, volumeSum = Num 0\<rparr>\<rparr>"

subsection \<open>initialize\<close>

definition initialize :: "platform \<Rightarrow> audio_manager \<Rightarrow> (error + unit) \<times> audio_manager" where
  "initialize p s =
     (if initialized s then (Inr (), s)
      else case newAudioContext p of
        Inl e \<Rightarrow> (Inl e, s)
      | Inr ctx \<Rightarrow>
          (let s1 = s\<lparr>audioContext := Some ctx\<rparr> in
           case createAnalyser p of
             Some e \<Rightarrow> (Inl e, s1)
           | None \<Rightarrow>
               (Inr (),
                s1\<lparr>analyser := Some \<lparr>fftSize = 1024, smoothingTimeConstant = 0.8,
                                     minDecibels = - 85, maxDecibels = - 10\<rparr>,
                   initialized := True\<rparr>)))"

subsection \<open>stopMicrophone\<close>

text \<open>\<^verbatim>\<open>getTracks().forEach((track) => track.stop())\<close>: the tracks are stopped in order; a
  call that throws ends the loop and leaves the remaining tracks as they were.\<close>

fun stop_tracks :: "(nat \<Rightarrow> error option) \<Rightarrow> nat \<Rightarrow> readyState list \<Rightarrow> error option \<times> readyState list" where
  "stop_tracks f i [] = (None, [])"
| "stop_tracks f i (t # ts) =
     (case f i of
        Some e \<Rightarrow> (Some e, t # ts)
      | None \<Rightarrow> (case stop_tracks f (Suc i) ts of (r, ts') \<Rightarrow> (r, Ended # ts')))"

text \<open>The tracks of a stream of the world. A stream the manager holds was handed out by
  the world, so the position is in range there; out of range there are no tracks.\<close>

definition getTracks :: "world \<Rightarrow> nat \<Rightarrow> readyState list" where
  "getTracks w sid = (if sid < length (streams w) then streams w ! sid else [])"

definition stopMicrophone :: "platform \<Rightarrow> audio_manager \<Rightarrow> world \<Rightarrow> (error + unit) \<times> audio_manager \<times> world" where
  "stopMicrophone p s w =
     (if \<not> isActive s then (Inr (), s, w)
      else
        case (case stream s of
                None \<Rightarrow> (None, s, w)
              | Some sid \<Rightarrow>
                  (case stop_tracks (track_stop p sid) 0 (getTracks w sid) of
                     (Some e, ts) \<Rightarrow> (Some e, s, w\<lparr>streams := (streams w)[sid := ts]\<rparr>)
                   | (None, ts) \<Rightarrow>
                       (None, s\<lparr>stream := None\<rparr>, w\<lparr>streams := (streams w)[sid := ts]\<rparr>))) of
          (Some e, s1, w1) \<Rightarrow> (Inl e, s1, w1)
        | (None, s1, w1) \<Rightarrow>
            (case microphone s1 of
               None \<Rightarrow> (Inr (), s1\<lparr>isActive := False\<rparr>, w1)
             | Some m \<Rightarrow>
                 (case disconnect p m of
                    Some e \<Rightarrow> (Inl e, s1, w1)
                  | None \<Rightarrow>
                      (Inr (), s1\<lparr>microphone := None, isActive := False\<rparr>,
                       w1\<lparr>connected := removeAll m (connected w1)\<rparr>))))"

subsection \<open>startMicrophone\<close>

definition fresh_metrics :: "int \<Rightarrow> metrics" where
  "fresh_metrics t =
     \<lparr>lastUpdate = t, updateInterval = 1000, peakVolume = Num 0, averageVolume = Num 0,
      sampleCount = 0, volumeSum = Num 0\<rparr>"

text \<open>The body of the \<^verbatim>\<open>try\<close> block. A stream without a track makes
  \<^verbatim>\<open>getAudioTracks()[0]\<close> undefined and the read of its label throw; a missing context
  or analyser makes the call on it throw.\<close>

definition startMicrophone_try :: "platform \<Rightarrow> audio_manager \<Rightarrow> world \<Rightarrow> (error + unit) \<times> audio_manager \<times> world" where
  "startMicrophone_try p s w =
     (case stopMicrophone p s w of
        (Inl e, s1, w1) \<Rightarrow> (Inl e, s1, w1)
      | (Inr _, s1, w1) \<Rightarrow>
          (case getUserMedia p of
             Inl e \<Rightarrow> (Inl e, s1, w1)
           | Inr k \<Rightarrow>
               (let sid = length (streams w1);
                    w2 = w1\<lparr>streams := streams w1 @ [replicate k Live]\<rparr>;
                    s2 = s1\<lparr>stream := Some sid\<rparr>
                in if k = 0 then (Inl TypeError, s2, w2)
                   else case audioContext s2 of
                     None \<Rightarrow> (Inl TypeError, s2, w2)
                   | Some ctx \<Rightarrow>
                       (case createMediaStreamSource p of
                          Some e \<Rightarrow> (Inl e, s2, w2)
                        | None \<Rightarrow>
                            (let s3 = s2\<lparr>microphone := Some sid\<rparr>
                             in case analyser s3 of
                               None \<Rightarrow> (Inl TypeError, s3, w2)
                             | Some a \<Rightarrow>
                                 (case connect p of
                                    Some e \<Rightarrow> (Inl e, s3, w2)
                                  | None \<Rightarrow>
                                      (Inr (),
                                       s3\<lparr>isActive := True, metrics := fresh_metrics (now p)\<rparr>,
                                       w2\<lparr>connected := sid # connected w2\<rparr>)))))))"

text \<open>The whole method: \<^verbatim>\<open>initialize\<close> first when needed (outside the \<^verbatim>\<open>try\<close>), then
  the body; the \<^verbatim>\<open>catch\<close> block calls \<^verbatim>\<open>stopMicrophone\<close> and rethrows (an error thrown
  by that call replaces the first one).\<close>

definition startMicrophone :: "platform \<Rightarrow> audio_manager \<Rightarrow> world \<Rightarrow> (error + unit) \<times> audio_manager \<times> world" where
  "startMicrophone p s w =
     (case (if \<not> initialized s then initialize p s else (Inr (), s)) of
        (Inl e, s0) \<Rightarrow> (Inl e, s0, w)
      | (Inr _, s0) \<Rightarrow>
          (case startMicrophone_try p s0 w of
             (Inr u, s1, w1) \<Rightarrow> (Inr u, s1, w1)
           | (Inl e, s1, w1) \<Rightarrow>
               (case stopMicrophone p s1 w1 of
                  (Inl e', s2, w2) \<Rightarrow> (Inl e', s2, w2)
                | (Inr _, s2, w2) \<Rightarrow> (Inl e, s2, w2))))"

subsection \<open>getAudioData and updateMetrics\<close>

text \<open>\<^verbatim>\<open>new Uint8Array(n)\<close> is \<open>n\<close> zeros; \<^verbatim>\<open>getByteFrequencyData\<close> overwrites it with the
  analyser's data, dropping what does not fit.\<close>

definition getByteFrequencyData :: "platform \<Rightarrow> nat \<Rightarrow> 8 word list" where
  "getByteFrequencyData p n =
     take n (byteFrequencyData p) @ replicate (n - length (byteFrequencyData p)) 0"

text \<open>\<^verbatim>\<open>sum / frequencyData.length / 255\<close> with
  \<^verbatim>\<open>sum = frequencyData.reduce((acc, val) => acc + val, 0)\<close>. On an empty array the
  sum is 0 and \<^verbatim>\<open>0 / 0\<close> is \<open>NaN\<close>.\<close>

definition rawVolume :: "8 word list \<Rightarrow> jsnum" where
  "rawVolume fd =
     (let sum = foldl (\<lambda>acc val. acc + real (unat val)) 0 fd
      in if length fd = 0 then NaN else Num (sum / real (length fd) / 255))"

definition updateMetrics :: "platform \<Rightarrow> jsnum \<Rightarrow> audio_manager \<Rightarrow> audio_manager" where
  "updateMetrics p vol s =
     (let m1 = (metrics s)\<lparr>peakVolume := num_max (peakVolume (metrics s)) vol\<rparr>;
          m2 = m1\<lparr>volumeSum := num_add (volumeSum m1) vol\<rparr>;
          m3 = m2\<lparr>sampleCount := sampleCount m2 + 1\<rparr>
      in if now p - lastUpdate m3 \<ge> updateInterval m3
         then s\<lparr>metrics :=
                  m3\<lparr>averageVolume := num_div_count (volumeSum m3) (sampleCount m3),
                     lastUpdate := now p, peakVolume := vol, volumeSum := vol,
                     sampleCount := 1\<rparr>\<rparr>
         else s\<lparr>metrics := m3\<rparr>)"

definition getAudioData :: "platform \<Rightarrow> audio_manager \<Rightarrow> audio_data \<times> audio_manager" where
  "getAudioData p s =
     (case analyser s of
        None \<Rightarrow> (\<lparr>volume = Num 0, frequencyData = None, data_metrics = None\<rparr>, s)
      | Some a \<Rightarrow>
          if \<not> isActive s
          then (\<lparr>volume = Num 0, frequencyData = None, data_metrics = None\<rparr>, s)
          else
            (let fd = getByteFrequencyData p (frequencyBinCount a);
                 s1 = s\<lparr>prevVolume :=
                        num_add (num_mul (prevVolume s) (Num (volumeSmoothing s)))
                                (num_mul (rawVolume fd) (Num (1 - volumeSmoothing s)))\<rparr>;
                 s2 = updateMetrics p (prevVolume s1) s1
             in (\<lparr>volume = prevVolume s2, frequencyData = Some fd,
                  data_metrics = Some (metrics s2)\<rparr>, s2)))"

text \<open>One call of \<^verbatim>\<open>getAudioData\<close> per animation frame, each with what the platform
  shows at that frame.\<close>

fun frames :: "platform list \<Rightarrow> audio_manager \<Rightarrow> audio_data list \<times> audio_manager" where
  "frames [] s = ([], s)"
| "frames (p # ps) s =
     (case getAudioData p s of
        (d, s1) \<Rightarrow> (case frames ps s1 of (ds, s2) \<Rightarrow> (d # ds, s2)))"

subsection \<open>Live streams\<close>

text \<open>The streams of the world that have a live track, and the worlds in which every
  such stream is the one an active manager holds.\<close>

definition live_streams :: "world \<Rightarrow> nat list" where
  "live_streams w = filter (\<lambda>i. Live \<in> set (streams w ! i)) [0 ..< length (streams w)]"

definition leak_free :: "audio_manager \<Rightarrow> world \<Rightarrow> bool" where
  "leak_free s w = (\<forall>i \<in> set (live_streams w). isActive s \<and> stream s = Some i)"

subsection \<open>Configuration\<close>

text \<open>What the constructor and \<^verbatim>\<open>initialize\<close> fix and no method changes afterwards: the
  smoothing factor 0.8, the report interval of 1000 ms, and an analyser of transform size
  1024, so of 512 bins.\<close>

definition configured :: "audio_manager \<Rightarrow> bool" where
  "configured s =
     (volumeSmoothing s = 0.8 \<and> updateInterval (metrics s) = 1000
      \<and> (case analyser s of None \<Rightarrow> True | Some a \<Rightarrow> frequencyBinCount a = 512))"

subsection \<open>Concrete platforms and sessions\<close>

text \<open>A browser in which every call succeeds and the microphone has one track, at time
  \<open>t\<close> with the analyser holding \<open>bins\<close>; the world of a freshly loaded page.\<close>

definition browser :: "int \<Rightarrow> 8 word list \<Rightarrow> platform" where
  "browser t bins =
     \<lparr>newAudioContext = Inr \<lparr>sampleRate = 44100\<rparr>, createAnalyser = None,
      getUserMedia = Inr 1, createMediaStreamSource = None, connect = None,
      track_stop = (\<lambda>sid i. None), disconnect = (\<lambda>m. None), now = t,
      byteFrequencyData = bins\<rparr>"

definition page :: world where
  "page = \<lparr>streams = [], connected = []\<rparr>"

text \<open>The manager after \<^verbatim>\<open>initialize\<close> and \<^verbatim>\<open>startMicrophone\<close> have succeeded at time
  \<open>t\<close> on a fresh page, written out.\<close>

definition listening :: "int \<Rightarrow> audio_manager" where
  "listening t =
     \<lparr>initialized = True, isActive = True, audioContext = Some \<lparr>sampleRate = 44100\<rparr>,
      analyser = Some \<lparr>fftSize = 1024, smoothingTimeConstant = 0.8,
                        minDecibels = - 85, maxDecibels = - 10\<rparr>,
      microphone = Some 0, volumeSmoothing = 0.8, prevVolume = Num 0, stream = Some 0,
      metrics = fresh_metrics t\<rparr>"

definition on_air :: world where
  "on_air = \<lparr>streams = [[Live]], connected = [0]\<rparr>"

definition ready :: audio_manager where
  "ready =
     \<lparr>initialized = True, isActive = False, audioContext = Some \<lparr>sampleRate = 44100\<rparr>,
      analyser = Some \<lparr>fftSize = 1024, smoothingTimeConstant = 0.8,
                        minDecibels = - 85, maxDecibels = - 10\<rparr>,
      microphone = None, volumeSmoothing = 0.8, prevVolume = Num 0, stream = None,
      metrics = \<lparr>lastUpdate = 0, updateInterval = 1000, peakVolume = Num 0,
                 averageVolume = Num 0, sampleCount = 0, volumeSum = Num 0\<rparr>\<rparr>"

definition refusing_source :: platform where
  "refusing_source = (browser 10 [])\<lparr>createMediaStreamSource := Some NotSupportedError\<rparr>"

definition stuck_tracks :: platform where
  "stuck_tracks = (browser 20 [])\<lparr>track_stop := (\<lambda>sid i. Some InvalidStateError)\<rparr>"



text \<open>The manager and the world that a failed \<^verbatim>\<open>startMicrophone\<close> leaves when
  \<^verbatim>\<open>createMediaStreamSource\<close> throws after the stream was granted.\<close>

definition after_failure :: audio_manager where
  "after_failure = ready\<lparr>stream := Some 0\<rparr>"

definition after_failure_page :: world where
  "after_failure_page = \<lparr>streams = [[Live]], connected = []\<rparr>"

section \<open>Properties\<close>

lemma listening_is_started:
  "startMicrophone (browser t bins) constructor page
     = (Inr (), listening t, on_air)"
  by (simp add: startMicrophone_def startMicrophone_try_def stopMicrophone_def
      initialize_def constructor_def browser_def page_def listening_def on_air_def)

text \<open>
  Claim C7. Calling \<^verbatim>\<open>stopMicrophone\<close> on a session that is not active returns without
  throwing and leaves every field of the manager, and the world, as it was.
\<close>

theorem stopMicrophone_inert_noop:
  "\<not> isActive s \<Longrightarrow> stopMicrophone p s w = (Inr (), s, w)"
  by (simp add: stopMicrophone_def)

theorem stopMicrophone_inert_noop_witness:
  "\<not> isActive constructor
   \<and> stopMicrophone (browser 5 []) constructor page = (Inr (), constructor, page)"
proof -
  have h: "\<not> isActive constructor" by (simp add: constructor_def)
  show ?thesis using h stopMicrophone_inert_noop [OF h, of "browser 5 []" page] by simp
qed

text \<open>
  Claim C3. On a session that is not active, or that has no analyser, \<^verbatim>\<open>getAudioData\<close>
  returns volume 0 and a null frequency snapshot. The method has no statement that can
  throw, so the model has no error result: it returns a value on every manager.
\<close>

theorem getAudioData_inert_zero:
  "\<not> isActive s \<or> analyser s = None \<Longrightarrow>
     volume (fst (getAudioData p s)) = Num 0
     \<and> frequencyData (fst (getAudioData p s)) = None"
  by (auto simp: getAudioData_def split: option.splits)

theorem getAudioData_inert_zero_witness:
  "\<not> isActive constructor \<and> analyser constructor = None
   \<and> volume (fst (getAudioData (browser 7 [200, 100]) constructor)) = Num 0
   \<and> frequencyData (fst (getAudioData (browser 7 [200, 100]) constructor)) = None"
proof -
  have h: "\<not> isActive constructor \<or> analyser constructor = None"
    by (simp add: constructor_def)
  show ?thesis
    using h getAudioData_inert_zero [OF h, of "browser 7 [200, 100]"]
    by (simp add: constructor_def)
qed

text \<open>
  Claim C10. On a session that is not active, or that has no analyser, the object
  \<^verbatim>\<open>getAudioData\<close> returns has the fields volume and frequencyData only, with no metrics
  field, and the manager is left exactly as it was; on an active session with an analyser
  the returned object has all three fields.
\<close>

theorem getAudioData_inert_shape:
  "(\<not> isActive s \<or> analyser s = None \<longrightarrow>
      getAudioData p s
        = (\<lparr>volume = Num 0, frequencyData = None, data_metrics = None\<rparr>, s))
   \<and> (isActive s \<and> analyser s \<noteq> None \<longrightarrow>
        frequencyData (fst (getAudioData p s)) \<noteq> None
        \<and> data_metrics (fst (getAudioData p s)) \<noteq> None)"
  by (auto simp: getAudioData_def Let_def split: option.splits)

theorem getAudioData_inert_shape_witness:
  "\<not> isActive constructor \<and> analyser constructor = None
   \<and> getAudioData (browser 7 [200, 100]) constructor
       = (\<lparr>volume = Num 0, frequencyData = None, data_metrics = None\<rparr>, constructor)
   \<and> (isActive (listening 0) \<and> analyser (listening 0) \<noteq> None)
   \<and> frequencyData (fst (getAudioData (browser 7 [200, 100]) (listening 0))) \<noteq> None
   \<and> data_metrics (fst (getAudioData (browser 7 [200, 100]) (listening 0))) \<noteq> None"
proof -
  have h1: "\<not> isActive constructor \<or> analyser constructor = None"
    by (simp add: constructor_def)
  have h2: "isActive (listening 0) \<and> analyser (listening 0) \<noteq> None"
    by (simp add: listening_def)
  have h3: "\<not> isActive constructor \<and> analyser constructor = None"
    by (simp add: constructor_def)
  show ?thesis
    using h1 h2 h3
      getAudioData_inert_shape [of constructor "browser 7 [200, 100]"]
      getAudioData_inert_shape [of "listening 0" "browser 7 [200, 100]"]
    by blast
qed

subsection \<open>Smoothing and metrics\<close>

lemma foldl_real_sum:
  "foldl (\<lambda>acc val. acc + real (unat val)) a fd = a + sum_list (map (\<lambda>v. real (unat v)) fd)"
  for fd :: "8 word list"
  by (induction fd arbitrary: a) simp_all

lemma rawVolume_mean:
  "fd \<noteq> [] \<Longrightarrow> rawVolume fd = Num (sum_list (map (\<lambda>v. real (unat v)) fd) / real (length fd) / 255)"
  unfolding rawVolume_def foldl_real_sum Let_def by simp

lemma length_getByteFrequencyData [simp]: "length (getByteFrequencyData p n) = n"
  by (simp add: getByteFrequencyData_def)

lemma unat_byte_le: "unat (v :: 8 word) \<le> 255"
proof -
  have "unat v < 2 ^ LENGTH(8)" by (rule unsigned_less)
  then show ?thesis by simp
qed

lemma sum_bytes_bounds:
  "0 \<le> sum_list (map (\<lambda>v. real (unat v)) fd) \<and>
   sum_list (map (\<lambda>v. real (unat v)) fd) \<le> 255 * real (length fd)"
  for fd :: "8 word list"
proof (induction fd)
  case Nil
  show ?case by simp
next
  case (Cons v fd)
  have "real (unat v) \<le> 255" using unat_byte_le [of v] by linarith
  moreover have "0 \<le> real (unat v)" by linarith
  ultimately show ?case using Cons unfolding list.map sum_list.Cons list.size by (simp add: algebra_simps)
qed

lemma mean_bounds:
  fixes fd :: "8 word list"
  assumes "fd \<noteq> []"
  shows "0 \<le> sum_list (map (\<lambda>v. real (unat v)) fd) / real (length fd) / 255"
    and "sum_list (map (\<lambda>v. real (unat v)) fd) / real (length fd) / 255 \<le> 1"
proof -
  let ?S = "sum_list (map (\<lambda>v. real (unat v)) fd)"
  have n: "0 < real (length fd)" using assms by simp
  have b: "0 \<le> ?S" "?S \<le> 255 * real (length fd)" using sum_bytes_bounds [of fd] by simp_all
  show "0 \<le> ?S / real (length fd) / 255" using b n by simp
  have "?S / real (length fd) \<le> 255" using b n by (simp add: pos_divide_le_eq)
  then show "?S / real (length fd) / 255 \<le> 1" by simp
qed

lemma getAudioData_active:
  "isActive s \<Longrightarrow> analyser s = Some a \<Longrightarrow>
   getAudioData p s =
     (let fd = getByteFrequencyData p (frequencyBinCount a);
          s1 = s\<lparr>prevVolume :=
                 num_add (num_mul (prevVolume s) (Num (volumeSmoothing s)))
                         (num_mul (rawVolume fd) (Num (1 - volumeSmoothing s)))\<rparr>;
          s2 = updateMetrics p (prevVolume s1) s1
      in (\<lparr>volume = prevVolume s2, frequencyData = Some fd,
           data_metrics = Some (metrics s2)\<rparr>, s2))"
  by (simp add: getAudioData_def)

lemma prevVolume_updateMetrics [simp]: "prevVolume (updateMetrics p v s) = prevVolume s"
  by (simp add: updateMetrics_def Let_def)






lemma getAudioData_frame:
  "isActive (snd (getAudioData p s)) = isActive s"
  "analyser (snd (getAudioData p s)) = analyser s"
  "volumeSmoothing (snd (getAudioData p s)) = volumeSmoothing s"
  by (simp_all add: getAudioData_def updateMetrics_def Let_def split: option.splits)

lemma convex_unit:
  fixes x y al :: real
  assumes "0 \<le> x" "x \<le> 1" "0 \<le> y" "y \<le> 1" "0 \<le> al" "al \<le> 1"
  shows "0 \<le> x * al + y * (1 - al)" and "x * al + y * (1 - al) \<le> 1"
proof -
  have a: "0 \<le> x * al" "0 \<le> y * (1 - al)" using assms by simp_all
  then show "0 \<le> x * al + y * (1 - al)" by linarith
  have "x * al \<le> 1 * al" using assms by (intro mult_right_mono) simp_all
  then have b: "x * al \<le> al" by simp
  have "y * (1 - al) \<le> 1 * (1 - al)" using assms by (intro mult_right_mono) simp_all
  then have c: "y * (1 - al) \<le> 1 - al" by simp
  from b c show "x * al + y * (1 - al) \<le> 1" by linarith
qed

lemma rawVolume_in_unit: "fd \<noteq> [] \<Longrightarrow> in_unit (rawVolume fd)"
  using mean_bounds [of fd] by (simp add: rawVolume_mean)

lemma smoothing_in_unit:
  assumes "in_unit pv" "in_unit raw" "0 \<le> al" "al \<le> 1"
  shows "in_unit (num_add (num_mul pv (Num al)) (num_mul raw (Num (1 - al))))"
proof -
  obtain x y where xy: "pv = Num x" "raw = Num y" "0 \<le> x" "x \<le> 1" "0 \<le> y" "y \<le> 1"
    using assms(1,2) by (cases pv; cases raw) simp_all
  show ?thesis using convex_unit [OF xy(3-6) assms(3,4)] xy(1,2) by simp
qed

lemma getAudioData_in_unit:
  assumes "0 \<le> volumeSmoothing s" "volumeSmoothing s \<le> 1" "in_unit (prevVolume s)"
    and "case analyser s of None \<Rightarrow> True | Some a \<Rightarrow> 0 < frequencyBinCount a"
  shows "in_unit (prevVolume (snd (getAudioData p s)))"
    and "in_unit (volume (fst (getAudioData p s)))"
proof -
  show "in_unit (prevVolume (snd (getAudioData p s)))"
  proof (cases "isActive s \<and> analyser s \<noteq> None")
    case True
    then obtain a where a: "isActive s" "analyser s = Some a" by auto
    let ?fd = "getByteFrequencyData p (frequencyBinCount a)"
    have "length ?fd = frequencyBinCount a" by (rule length_getByteFrequencyData)
    moreover have "0 < frequencyBinCount a" using assms(4) a(2) by simp
    ultimately have "?fd \<noteq> []" by (metis length_0_conv less_numeral_extra(3))
    then have "in_unit (rawVolume ?fd)" by (rule rawVolume_in_unit)
    from smoothing_in_unit [OF assms(3) this assms(1,2)]
    show ?thesis by (simp add: getAudioData_active [OF a] Let_def)
  next
    case False
    then show ?thesis using assms(3) by (auto simp: getAudioData_def split: option.splits)
  qed
  then show "in_unit (volume (fst (getAudioData p s)))"
    by (auto simp: getAudioData_def Let_def split: option.splits)
qed

text \<open>
  Claim C2. With a smoothing factor in \<open>[0, 1]\<close>, a previous volume in \<open>[0, 1]\<close> and an
  analyser (if there is one) with at least one bin, any number of \<^verbatim>\<open>getAudioData\<close>
  calls on any byte snapshots leaves \<open>prevVolume\<close> in \<open>[0, 1]\<close> and returns only volumes in
  \<open>[0, 1]\<close>.
\<close>

theorem smoothed_volume_in_unit:
  assumes "0 \<le> volumeSmoothing s" and "volumeSmoothing s \<le> 1" and "in_unit (prevVolume s)"
    and "case analyser s of None \<Rightarrow> True | Some a \<Rightarrow> 0 < frequencyBinCount a"
  shows "in_unit (prevVolume (snd (frames ps s)))
         \<and> (\<forall>d \<in> set (fst (frames ps s)). in_unit (volume d))"
  using assms
proof (induction ps arbitrary: s)
  case Nil
  then show ?case by simp
next
  case (Cons p ps)
  let ?s1 = "snd (getAudioData p s)"
  have 1: "0 \<le> volumeSmoothing ?s1" "volumeSmoothing ?s1 \<le> 1"
    using Cons.prems(1,2) by (simp_all add: getAudioData_frame)
  have 2: "in_unit (prevVolume ?s1)" "in_unit (volume (fst (getAudioData p s)))"
    using getAudioData_in_unit [OF Cons.prems] by simp_all
  have 3: "case analyser ?s1 of None \<Rightarrow> True | Some a \<Rightarrow> 0 < frequencyBinCount a"
    using Cons.prems(4) by (simp add: getAudioData_frame)
  from Cons.IH [OF 1 2(1) 3] 2(2) show ?case
    by (simp add: split_beta)
qed

theorem smoothed_volume_in_unit_witness:
  "0 \<le> volumeSmoothing (listening 0) \<and> volumeSmoothing (listening 0) \<le> 1
   \<and> in_unit (prevVolume (listening 0))
   \<and> (case analyser (listening 0) of None \<Rightarrow> True | Some a \<Rightarrow> 0 < frequencyBinCount a)
   \<and> in_unit (prevVolume (snd (frames [browser 16 [255, 255, 3], browser 33 [], browser 50 [9]] (listening 0))))
   \<and> list_all (\<lambda>d. in_unit (volume d))
        (fst (frames [browser 16 [255, 255, 3], browser 33 [], browser 50 [9]] (listening 0)))"
proof -
  have h1: "0 \<le> volumeSmoothing (listening 0)" by (simp add: listening_def)
  have h2: "volumeSmoothing (listening 0) \<le> 1" by (simp add: listening_def)
  have h3: "in_unit (prevVolume (listening 0))" by (simp add: listening_def)
  have h4: "case analyser (listening 0) of None \<Rightarrow> True | Some a \<Rightarrow> 0 < frequencyBinCount a"
    by (simp add: listening_def frequencyBinCount_def)
  show ?thesis
    using h1 h2 h3 h4
      smoothed_volume_in_unit [OF h1 h2 h3 h4,
        of "[browser 16 [255, 255, 3], browser 33 [], browser 50 [9]]"]
    unfolding list_all_iff by blast
qed

subsection \<open>The microphone life cycle\<close>

lemma stop_tracks_ok:
  "stop_tracks f i ts = (None, ts') \<Longrightarrow> ts' = replicate (length ts) Ended"
  by (induction ts arbitrary: i ts') (auto split: option.splits prod.splits)

lemma stop_tracks_error:
  "stop_tracks f i ts = (Some e, ts') \<Longrightarrow> \<exists>j. f j = Some e"
  by (induction ts arbitrary: i ts') (auto split: option.splits prod.splits)

lemma stop_tracks_fails:
  "j < length ts \<Longrightarrow> f (i + j) \<noteq> None \<Longrightarrow> \<exists>e ts'. stop_tracks f i ts = (Some e, ts')"
proof (induction ts arbitrary: i j)
  case Nil
  then show ?case by simp
next
  case (Cons t ts)
  show ?case
  proof (cases "f i")
    case (Some e)
    then show ?thesis by simp
  next
    case None
    then have "j \<noteq> 0" using Cons.prems(2) by (cases j) auto
    then obtain j' where j': "j = Suc j'" by (cases j) auto
    have "\<exists>e ts'. stop_tracks f (Suc i) ts = (Some e, ts')"
      using Cons.IH [of j' "Suc i"] Cons.prems j' by simp
    then show ?thesis using None by auto
  qed
qed

lemma live_streams_append:
  "live_streams (w\<lparr>streams := streams w @ [ts]\<rparr>)
     = live_streams w @ (if Live \<in> set ts then [length (streams w)] else [])"
proof -
  have "filter (\<lambda>i. Live \<in> set ((streams w @ [ts]) ! i)) [0 ..< length (streams w)]
          = filter (\<lambda>i. Live \<in> set (streams w ! i)) [0 ..< length (streams w)]"
    by (rule filter_cong) (simp_all add: nth_append)
  then show ?thesis by (simp add: live_streams_def)
qed

lemma live_streams_connected [simp]:
  "live_streams (w\<lparr>connected := c\<rparr>) = live_streams w"
  by (simp add: live_streams_def)

lemma stopMicrophone_ok:
  assumes "stopMicrophone p s w = (Inr (), s', w')"
  shows "\<not> isActive s'"
    and "isActive s \<Longrightarrow> stream s' = None"
    and "length (streams w') = length (streams w)"
    and "initialized s' = initialized s"
    and "audioContext s' = audioContext s"
    and "analyser s' = analyser s"
  using assms
  by (auto simp: stopMicrophone_def split: if_splits option.splits prod.splits)

lemma startMicrophone_try_ok:
  assumes "startMicrophone_try p s w = (Inr (), s', w')"
  shows "\<exists>sm wm k. stopMicrophone p s w = (Inr (), sm, wm) \<and> 0 < k
           \<and> streams w' = streams wm @ [replicate k Live]
           \<and> s' = sm\<lparr>stream := Some (length (streams wm)),
                     microphone := Some (length (streams wm)),
                     isActive := True, metrics := fresh_metrics (now p)\<rparr>"
  using assms
  by (auto simp: startMicrophone_try_def Let_def
      split: prod.splits sum.splits option.splits if_splits)

lemma initialize_frame:
  assumes "initialize p s = (r, s')"
  shows "isActive s' = isActive s" and "stream s' = stream s"
  using assms
  by (auto simp: initialize_def Let_def split: if_splits sum.splits option.splits)

lemma initialize_ok:
  "initialize p s = (Inr (), s') \<Longrightarrow> initialized s'"
  by (auto simp: initialize_def Let_def split: if_splits sum.splits option.splits)

lemma startMicrophone_ok:
  assumes "startMicrophone p s w = (Inr (), s', w')"
  shows "\<exists>s0. startMicrophone_try p s0 w = (Inr (), s', w')
            \<and> isActive s0 = isActive s \<and> stream s0 = stream s \<and> initialized s0
            \<and> (initialized s \<longrightarrow> s0 = s)"
proof (cases "initialized s")
  case True
  then show ?thesis using assms
    by (auto simp: startMicrophone_def split: prod.splits sum.splits)
next
  case False
  then obtain s0 where i: "initialize p s = (Inr (), s0)"
    and t: "startMicrophone_try p s0 w = (Inr (), s', w')"
    using assms by (auto simp: startMicrophone_def split: prod.splits sum.splits)
  show ?thesis using t initialize_frame [OF i] initialize_ok [OF i] False by auto
qed

lemma live_streams_update_ended:
  "live_streams (w\<lparr>streams := (streams w)[sid := replicate n Ended]\<rparr>)
     = filter (\<lambda>i. i \<noteq> sid) (live_streams w)"
proof -
  have "(Live \<in> set ((streams w)[sid := replicate n Ended] ! i))
          = (i \<noteq> sid \<and> Live \<in> set (streams w ! i))"
    if "i < length (streams w)" for i
    using that by (cases "i = sid") simp_all
  then have "filter (\<lambda>i. Live \<in> set ((streams w)[sid := replicate n Ended] ! i))
          [0 ..< length (streams w)]
        = filter (\<lambda>i. i \<noteq> sid \<and> Live \<in> set (streams w ! i)) [0 ..< length (streams w)]"
    by (intro filter_cong) simp_all
  then show ?thesis by (simp add: live_streams_def conj_commute)
qed

lemma stopMicrophone_live_streams:
  assumes "stopMicrophone p s w = (Inr (), s', w')"
  shows "live_streams w'
           = filter (\<lambda>i. \<not> (isActive s \<and> stream s = Some i)) (live_streams w)"
proof (cases "isActive s")
  case False
  then have "w' = w" using assms by (simp add: stopMicrophone_def)
  then show ?thesis using False by simp
next
  case True
  show ?thesis
  proof (cases "stream s")
    case None
    have "streams w' = streams w"
      using assms True None by (auto simp: stopMicrophone_def split: option.splits)
    then show ?thesis using None by (simp add: live_streams_def)
  next
    case (Some sid)
    obtain ts where ts: "stop_tracks (track_stop p sid) 0 (getTracks w sid) = (None, ts)"
      and w': "streams w' = (streams w)[sid := ts]"
      using assms True Some
      by (auto simp: stopMicrophone_def split: option.splits prod.splits)
    have "ts = replicate (length (getTracks w sid)) Ended" using ts by (rule stop_tracks_ok)
    with w' have "live_streams w'
        = live_streams (w\<lparr>streams := (streams w)[sid := replicate (length (getTracks w sid)) Ended]\<rparr>)"
      by (simp add: live_streams_def)
    also have "\<dots> = filter (\<lambda>i. i \<noteq> sid) (live_streams w)"
      by (rule live_streams_update_ended)
    also have "\<dots> = filter (\<lambda>i. \<not> (isActive s \<and> stream s = Some i)) (live_streams w)"
      using True Some by (intro filter_cong) auto
    finally show ?thesis .
  qed
qed

lemma startMicrophone_live_streams:
  assumes "startMicrophone p s w = (Inr (), s', w')"
  shows "live_streams w'
           = filter (\<lambda>i. \<not> (isActive s \<and> stream s = Some i)) (live_streams w)
             @ [length (streams w)]"
    and "stream s' = Some (length (streams w))" and "isActive s'"
    and "length (streams w') = Suc (length (streams w))"
    and "metrics s' = fresh_metrics (now p)"
proof -
  obtain s0 where t: "startMicrophone_try p s0 w = (Inr (), s', w')"
    and s0: "isActive s0 = isActive s" "stream s0 = stream s" "initialized s0"
    using startMicrophone_ok [OF assms(1)] by blast
  obtain sm wm k where st: "stopMicrophone p s0 w = (Inr (), sm, wm)" and k: "0 < k"
    and w': "streams w' = streams wm @ [replicate k Live]"
    and s': "s' = sm\<lparr>stream := Some (length (streams wm)),
                     microphone := Some (length (streams wm)),
                     isActive := True, metrics := fresh_metrics (now p)\<rparr>"
    using startMicrophone_try_ok [OF t] by blast
  have len: "length (streams wm) = length (streams w)" using stopMicrophone_ok(3) [OF st] .
  have mid: "live_streams wm
               = filter (\<lambda>i. \<not> (isActive s \<and> stream s = Some i)) (live_streams w)"
    using stopMicrophone_live_streams [OF st] s0 by simp
  have "live_streams w' = live_streams (wm\<lparr>streams := streams wm @ [replicate k Live]\<rparr>)"
    using w' by (simp add: live_streams_def)
  then show "live_streams w'
           = filter (\<lambda>i. \<not> (isActive s \<and> stream s = Some i)) (live_streams w)
             @ [length (streams w)]"
    using k mid len by (simp add: live_streams_append)
  show "stream s' = Some (length (streams w))" using s' len by simp
  show "isActive s'" using s' by simp
  show "length (streams w') = Suc (length (streams w))" using w' len by simp
  show "metrics s' = fresh_metrics (now p)" using s' by simp
qed

text \<open>What two successful calls in a row do in every state: the streams live afterwards
  are those that were live before and were not held by an active manager, followed by the
  one newly acquired, which the manager holds; the stream of the first call has no live
  track; the metrics are those of a new window at the time of the second call. From a
  state without a leaked stream exactly one stream is live.\<close>

lemma live_streams_bound: "i \<in> set (live_streams w) \<Longrightarrow> i < length (streams w)"
  by (simp add: live_streams_def)

lemma startMicrophone_twice_live_streams:
  assumes "startMicrophone p1 s0 w0 = (Inr (), s1, w1)"
    and "startMicrophone p2 s1 w1 = (Inr (), s2, w2)"
  shows "live_streams w2
           = filter (\<lambda>i. \<not> (isActive s0 \<and> stream s0 = Some i)) (live_streams w0)
             @ [length (streams w1)]"
    and "stream s2 = Some (length (streams w1))" and "isActive s2"
    and "stream s1 = Some (length (streams w0))"
    and "Live \<notin> set (streams w2 ! length (streams w0))"
    and "metrics s2 = fresh_metrics (now p2)"
proof -
  note a = startMicrophone_live_streams [OF assms(1)]
  note b = startMicrophone_live_streams [OF assms(2)]
  let ?F = "filter (\<lambda>i. \<not> (isActive s0 \<and> stream s0 = Some i)) (live_streams w0)"
  have old: "\<forall>i \<in> set ?F. i \<noteq> length (streams w0)"
    using live_streams_bound [of _ w0] by auto
  have "filter (\<lambda>i. \<not> (isActive s1 \<and> stream s1 = Some i)) ?F = ?F"
    unfolding filter_id_conv using a(2,3) old by auto
  then have "filter (\<lambda>i. \<not> (isActive s1 \<and> stream s1 = Some i)) (?F @ [length (streams w0)]) = ?F"
    using a(2,3) by simp
  then show l2: "live_streams w2 = ?F @ [length (streams w1)]"
    using b(1) a(1) by simp
  show "stream s2 = Some (length (streams w1))" by (rule b(2))
  show "isActive s2" by (rule b(3))
  show "stream s1 = Some (length (streams w0))" by (rule a(2))
  show "metrics s2 = fresh_metrics (now p2)" by (rule b(5))
  have "length (streams w0) \<notin> set (live_streams w2)"
    unfolding l2 using old a(4) by auto
  moreover have "length (streams w0) < length (streams w2)" using a(4) b(4) by simp
  ultimately show "Live \<notin> set (streams w2 ! length (streams w0))"
    by (simp add: live_streams_def)
qed

lemma startMicrophone_twice_leak_free:
  assumes "leak_free s0 w0"
    and "startMicrophone p1 s0 w0 = (Inr (), s1, w1)"
    and "startMicrophone p2 s1 w1 = (Inr (), s2, w2)"
  shows "live_streams w2 = [length (streams w1)]"
proof -
  have "filter (\<lambda>i. \<not> (isActive s0 \<and> stream s0 = Some i)) (live_streams w0) = []"
    using assms(1) by (auto simp: leak_free_def filter_empty_conv)
  then show ?thesis using startMicrophone_twice_live_streams(1) [OF assms(2,3)] by simp
qed

text \<open>
  Claim C8, at an input where the code does not do what the claim says. A
  \<^verbatim>\<open>startMicrophone\<close> that failed after the stream was granted has left the manager not
  active with that stream in \<^verbatim>\<open>this.stream\<close>, its track live. The next
  \<^verbatim>\<open>startMicrophone\<close> opens with a \<^verbatim>\<open>stopMicrophone\<close> that returns at once, because
  \<^verbatim>\<open>isActive\<close> is false, and then overwrites \<^verbatim>\<open>this.stream\<close>. After two successful
  calls in a row two streams have a live track: the one left behind and the new one.
\<close>

theorem startMicrophone_twice_keeps_leaked_stream:
  "startMicrophone refusing_source ready page
     = (Inl NotSupportedError, after_failure, after_failure_page)
   \<and> startMicrophone (browser 100 []) after_failure after_failure_page
       = (Inr (), (listening 100)\<lparr>stream := Some 1, microphone := Some 1\<rparr>,
          \<lparr>streams = [[Live], [Live]], connected = [1]\<rparr>)
   \<and> startMicrophone (browser 200 []) ((listening 100)\<lparr>stream := Some 1, microphone := Some 1\<rparr>)
         \<lparr>streams = [[Live], [Live]], connected = [1]\<rparr>
       = (Inr (), (listening 200)\<lparr>stream := Some 2, microphone := Some 2\<rparr>,
          \<lparr>streams = [[Live], [Ended], [Live]], connected = [2]\<rparr>)
   \<and> live_streams \<lparr>streams = [[Live], [Ended], [Live]], connected = [2]\<rparr> = [0, 2]"
proof -
  have 1: "startMicrophone refusing_source ready page
     = (Inl NotSupportedError, after_failure, after_failure_page)"
    by (simp add: startMicrophone_def startMicrophone_try_def stopMicrophone_def
        browser_def page_def ready_def refusing_source_def after_failure_def
        after_failure_page_def)
  have 2: "startMicrophone (browser 100 []) after_failure after_failure_page
       = (Inr (), (listening 100)\<lparr>stream := Some 1, microphone := Some 1\<rparr>,
          \<lparr>streams = [[Live], [Live]], connected = [1]\<rparr>)"
    by (simp add: startMicrophone_def startMicrophone_try_def stopMicrophone_def
        browser_def ready_def after_failure_def after_failure_page_def listening_def)
  have 3: "startMicrophone (browser 200 []) ((listening 100)\<lparr>stream := Some 1, microphone := Some 1\<rparr>)
         \<lparr>streams = [[Live], [Live]], connected = [1]\<rparr>
       = (Inr (), (listening 200)\<lparr>stream := Some 2, microphone := Some 2\<rparr>,
          \<lparr>streams = [[Live], [Ended], [Live]], connected = [2]\<rparr>)"
    by (simp add: startMicrophone_def startMicrophone_try_def stopMicrophone_def getTracks_def
        browser_def listening_def)
  have 4: "live_streams \<lparr>streams = [[Live], [Ended], [Live]], connected = [2]\<rparr> = [0, 2]"
    by (simp add: live_streams_def upt_conv_Cons)
  from 1 2 3 4 show ?thesis by blast
qed

text \<open>
  Claim C4, at an input where the code does not do what the claim says. The manager is
  initialized and not active, the browser grants a stream with one track, and
  \<^verbatim>\<open>createMediaStreamSource\<close> throws. The \<^verbatim>\<open>catch\<close> block calls \<^verbatim>\<open>stopMicrophone\<close>, which
  returns at once because \<^verbatim>\<open>isActive\<close> is still false: the error propagates with the
  stream kept in the manager and its track live.
\<close>

theorem startMicrophone_failure_leaks_stream:
  "initialize (browser 0 []) constructor = (Inr (), ready)
   \<and> startMicrophone refusing_source ready page
       = (Inl NotSupportedError, ready\<lparr>stream := Some 0\<rparr>,
          \<lparr>streams = [[Live]], connected = []\<rparr>)
   \<and> live_streams \<lparr>streams = [[Live]], connected = []\<rparr> = [0]"
  by (simp add: startMicrophone_def startMicrophone_try_def stopMicrophone_def
      initialize_def constructor_def browser_def page_def ready_def refusing_source_def
      live_streams_def)

text \<open>
  Claim C6 as stated fails: on an active session whose track cannot be stopped,
  \<^verbatim>\<open>stopMicrophone\<close> throws and the manager is as before, \<^verbatim>\<open>isActive\<close> true.
\<close>

theorem stopMicrophone_failure_inert_counterexample:
  "isActive (listening 0)
   \<and> stopMicrophone stuck_tracks (listening 0) on_air
       = (Inl InvalidStateError, listening 0, on_air)"
  by (simp add: stopMicrophone_def getTracks_def stuck_tracks_def browser_def
      listening_def on_air_def)

text \<open>
  Claim C6, amended. On an active session, a failure during the teardown of
  \<^verbatim>\<open>stopMicrophone\<close> (a track of the held stream that cannot be stopped, or the held source
  node that cannot be disconnected) makes the method throw; and whenever it throws, the
  error is the one thrown by such a call and the session is not marked inert:
  \<^verbatim>\<open>isActive\<close> is still true.
\<close>

theorem stopMicrophone_failure_stays_active:
  assumes "isActive s"
  shows "((\<exists>sid i. stream s = Some sid \<and> i < length (getTracks w sid)
                    \<and> track_stop p sid i \<noteq> None)
          \<or> (\<exists>m. microphone s = Some m \<and> disconnect p m \<noteq> None)
          \<longrightarrow> (\<exists>e. fst (stopMicrophone p s w) = Inl e))
         \<and> (fst (stopMicrophone p s w) = Inl e
            \<longrightarrow> isActive (fst (snd (stopMicrophone p s w)))
                \<and> ((\<exists>sid i. stream s = Some sid \<and> track_stop p sid i = Some e)
                   \<or> (\<exists>m. microphone s = Some m \<and> disconnect p m = Some e)))"
proof (intro conjI impI)
  assume "(\<exists>sid i. stream s = Some sid \<and> i < length (getTracks w sid)
                    \<and> track_stop p sid i \<noteq> None)
          \<or> (\<exists>m. microphone s = Some m \<and> disconnect p m \<noteq> None)"
  then show "\<exists>e. fst (stopMicrophone p s w) = Inl e"
  proof
    assume "\<exists>sid i. stream s = Some sid \<and> i < length (getTracks w sid)
                    \<and> track_stop p sid i \<noteq> None"
    then obtain sid i where a: "stream s = Some sid" "i < length (getTracks w sid)"
      "track_stop p sid i \<noteq> None" by blast
    obtain e ts where "stop_tracks (track_stop p sid) 0 (getTracks w sid) = (Some e, ts)"
      using stop_tracks_fails [of i "getTracks w sid" "track_stop p sid" 0] a(2,3) by auto
    then show ?thesis using assms a(1) by (simp add: stopMicrophone_def)
  next
    assume "\<exists>m. microphone s = Some m \<and> disconnect p m \<noteq> None"
    then obtain m e where a: "microphone s = Some m" "disconnect p m = Some e" by auto
    show ?thesis
      using assms a
      by (auto simp: stopMicrophone_def split: option.splits prod.splits)
  qed
next
  assume r: "fst (stopMicrophone p s w) = Inl e"
  obtain s' w' where "stopMicrophone p s w = (Inl e, s', w')"
    using r by (cases "stopMicrophone p s w") auto
  then show "isActive (fst (snd (stopMicrophone p s w)))"
    and "(\<exists>sid i. stream s = Some sid \<and> track_stop p sid i = Some e)
                   \<or> (\<exists>m. microphone s = Some m \<and> disconnect p m = Some e)"
    using assms
    by (auto simp: stopMicrophone_def split: option.splits prod.splits dest: stop_tracks_error)
qed

theorem stopMicrophone_failure_stays_active_witness:
  "isActive (listening 0)
   \<and> stream (listening 0) = Some 0 \<and> 0 < length (getTracks on_air 0)
   \<and> track_stop stuck_tracks 0 0 \<noteq> None
   \<and> fst (stopMicrophone stuck_tracks (listening 0) on_air) = Inl InvalidStateError
   \<and> isActive (fst (snd (stopMicrophone stuck_tracks (listening 0) on_air)))"
proof -
  have h1: "isActive (listening 0)" by (simp add: listening_def)
  have h2: "stream (listening 0) = Some 0 \<and> 0 < length (getTracks on_air 0)
            \<and> track_stop stuck_tracks 0 0 \<noteq> None"
    by (simp add: listening_def getTracks_def on_air_def stuck_tracks_def)
  have h3: "fst (stopMicrophone stuck_tracks (listening 0) on_air) = Inl InvalidStateError"
    by (simp add: stopMicrophone_def getTracks_def stuck_tracks_def browser_def
        listening_def on_air_def)
  have "\<exists>e. fst (stopMicrophone stuck_tracks (listening 0) on_air) = Inl e"
    using stopMicrophone_failure_stays_active [OF h1, of on_air stuck_tracks] h2 by blast
  moreover have "isActive (fst (snd (stopMicrophone stuck_tracks (listening 0) on_air)))"
    using stopMicrophone_failure_stays_active [OF h1, of on_air stuck_tracks InvalidStateError] h3
    by blast
  ultimately show ?thesis using h1 h2 h3 by blast
qed

lemma stopMicrophone_initialized:
  "stopMicrophone p s w = (r, s', w') \<Longrightarrow> initialized s' = initialized s"
  by (auto simp: stopMicrophone_def split: if_splits option.splits prod.splits)

lemma startMicrophone_try_initialized:
  assumes "startMicrophone_try p s w = (r, s', w')"
  shows "initialized s' = initialized s"
proof -
  obtain r0 sm wm where st: "stopMicrophone p s w = (r0, sm, wm)"
    using prod_cases3 by blast
  have "initialized sm = initialized s" using st by (rule stopMicrophone_initialized)
  then show ?thesis
    using assms
    by (cases r0) (auto simp: startMicrophone_try_def st Let_def
        split: sum.splits option.splits if_splits)
qed

lemma startMicrophone_failure_initialized:
  assumes "initialized s" and "startMicrophone p s w = (Inl e, s', w')"
  shows "initialized s'"
proof -
  obtain r1 s1 w1 where t: "startMicrophone_try p s w = (r1, s1, w1)"
    using prod_cases3 by blast
  obtain r2 s2 w2 where c: "stopMicrophone p s1 w1 = (r2, s2, w2)"
    using prod_cases3 by blast
  have "initialized s1" using startMicrophone_try_initialized [OF t] assms(1) by simp
  moreover have "initialized s2 = initialized s1" using c by (rule stopMicrophone_initialized)
  ultimately show ?thesis
    using assms
    by (cases r1; cases r2) (auto simp: startMicrophone_def t c)
qed

subsection \<open>The configuration is kept\<close>

text \<open>The properties above that ask for the interval 1000 or for an analyser with at
  least one bin hold for every manager the methods can produce from the constructor's.\<close>

lemma configured_constructor: "configured constructor"
  by (simp add: configured_def constructor_def)

lemma configured_initialize:
  "configured s \<Longrightarrow> initialize p s = (r, s') \<Longrightarrow> configured s'"
  by (auto simp: configured_def initialize_def frequencyBinCount_def Let_def
      split: if_splits sum.splits option.splits)

lemma configured_stopMicrophone:
  "configured s \<Longrightarrow> stopMicrophone p s w = (r, s', w') \<Longrightarrow> configured s'"
  by (auto simp: configured_def stopMicrophone_def split: if_splits option.splits prod.splits)

lemma configured_startMicrophone_try:
  assumes "configured s" and "startMicrophone_try p s w = (r, s', w')"
  shows "configured s'"
proof -
  obtain r0 sm wm where st: "stopMicrophone p s w = (r0, sm, wm)"
    using prod_cases3 by blast
  have "configured sm" using assms(1) st by (rule configured_stopMicrophone)
  then show ?thesis
    using assms(2)
    by (cases r0) (auto simp: startMicrophone_try_def st Let_def configured_def fresh_metrics_def
        split: sum.splits option.splits if_splits)
qed

lemma configured_startMicrophone:
  assumes "configured s" and "startMicrophone p s w = (r, s', w')"
  shows "configured s'"
proof -
  obtain ri s0 where i: "(if \<not> initialized s then initialize p s else (Inr (), s)) = (ri, s0)"
    by (cases "if \<not> initialized s then initialize p s else (Inr (), s)") simp
  have c0: "configured s0"
    using assms(1) i configured_initialize by (auto split: if_splits)
  obtain r1 s1 w1 where t: "startMicrophone_try p s0 w = (r1, s1, w1)"
    using prod_cases3 by blast
  obtain r2 s2 w2 where c: "stopMicrophone p s1 w1 = (r2, s2, w2)"
    using prod_cases3 by blast
  have c1: "configured s1" using c0 t by (rule configured_startMicrophone_try)
  have c2: "configured s2" using c1 c by (rule configured_stopMicrophone)
  show ?thesis
    using assms(2) c0 c1 c2 unfolding startMicrophone_def i
    by (cases ri; cases r1; cases r2) (auto simp: t c)
qed

lemma configured_getAudioData:
  "configured s \<Longrightarrow> configured (snd (getAudioData p s))"
  by (auto simp: configured_def getAudioData_def updateMetrics_def Let_def split: option.splits)

lemma startMicrophone_denied:
  assumes "initialized s" and "\<not> isActive s" and "getUserMedia p = Inl e"
  shows "startMicrophone p s w = (Inl e, s, w)"
  using assms
  by (simp add: startMicrophone_def startMicrophone_try_def stopMicrophone_def)

end
